theory Spec2Isabelle
  imports Main "HOL-Library.Word"
begin

unbundle bit_operations_syntax

section \<open>pas\_zip.h: a ZIP reader and writer over caller-owned buffers\<close>

text \<open>
  A shallow embedding of \<^verbatim>\<open>pas_zip.h\<close>. Conventions:

  \<^item> A byte is an \<open>8 word\<close>; \<^verbatim>\<open>uint16_t\<close> and \<^verbatim>\<open>uint32_t\<close> are \<open>16 word\<close> and
    \<open>32 word\<close>, so every conversion and every addition the C does at those widths
    truncates and wraps here as it does there.
  \<^item> A buffer is a list of bytes and a pointer into it is an index. \<^verbatim>\<open>size_t\<close> values
    (buffer sizes, the running \<^verbatim>\<open>written\<close>) are natural numbers: they are lengths of
    these lists and are never taken to wrap.
  \<^item> A C string is a list of bytes read up to its first zero byte.
  \<^item> The archive given to \<^verbatim>\<open>pas_zip_open\<close>, the destinations and the inputs of
    \<^verbatim>\<open>pas_zip_create\<close> are memory of the caller that the code does not write while it
    reads them; they are values. The name given to \<^verbatim>\<open>pas_zip_find\<close> is a pointer
    (\<open>str_ptr\<close>): it may point into \<^verbatim>\<open>pas_zip__name_buf\<close>, which the search overwrites
    before it compares.
  \<^item> The three \<^verbatim>\<open>static\<close> objects of the implementation are the fields of the record
    \<open>statics\<close>, passed to and returned from every function that touches them. The
    only addresses the API hands out are those of \<^verbatim>\<open>pas_zip__handle\<close> and
    \<^verbatim>\<open>pas_zip__current_file\<close>; a pointer is \<open>None\<close> (NULL) or the one address.
  \<^item> An access outside a buffer is undefined behaviour in C; where the code can reach
    one, the model says so (\<open>Out_Of_Bounds\<close>, or a store trace longer than the
    destination). The reads of \<^verbatim>\<open>find_eocd\<close>, \<^verbatim>\<open>parse_cd_entry\<close> and \<^verbatim>\<open>cd_iterate\<close>
    are guarded by the code's own tests against the \<^verbatim>\<open>size\<close> of the handle, which
    \<^verbatim>\<open>pas_zip_open\<close> sets to the length of the buffer.
  \<^item> The build modelled is the default one, without \<^verbatim>\<open>PAS_ZIP_USE_MINIZ\<close> and
    \<^verbatim>\<open>PAS_ZIP_USE_ZLIB\<close>.
\<close>

type_synonym byte = "8 word"

datatype pas_zip_status =
    PAS_ZIP_OK
  | PAS_ZIP_E_INVALID
  | PAS_ZIP_E_NOT_FOUND
  | PAS_ZIP_E_COMPRESSED
  | PAS_ZIP_E_NOSPACE
  | PAS_ZIP_E_ZLIB

definition PAS_ZIP_METHOD_STORE :: "16 word" where
  "PAS_ZIP_METHOD_STORE = 0"

definition PAS_ZIP_METHOD_DEFLATE :: "16 word" where
  "PAS_ZIP_METHOD_DEFLATE = 8"

definition PAS_ZIP_EOCD_SIG :: "32 word" where
  "PAS_ZIP_EOCD_SIG = 0x06054b50"

definition PAS_ZIP_CDH_SIG :: "32 word" where
  "PAS_ZIP_CDH_SIG = 0x02014b50"

definition PAS_ZIP_LFH_SIG :: "32 word" where
  "PAS_ZIP_LFH_SIG = 0x04034b50"

subsection \<open>Data\<close>

text \<open>\<^verbatim>\<open>struct pas_zip\<close>. The field \<^verbatim>\<open>size\<close> is \<open>size_zip\<close> here.\<close>

record pas_zip_t =
  data :: "byte list"
  size_zip :: nat
  cd_offset :: "32 word"
  num_entries :: "16 word"

text \<open>
  \<^verbatim>\<open>struct pas_zip_file\<close>. Its \<^verbatim>\<open>name\<close> is a pointer: NULL in the zero-initialised
  static, and the address of \<^verbatim>\<open>pas_zip__name_buf\<close> once \<^verbatim>\<open>parse_cd_entry\<close> has filled
  the struct.
\<close>

datatype name_ptr = Name_NULL | Name_Buf

record pas_zip_file_t =
  name :: name_ptr
  compressed_size :: nat
  uncompressed_size :: nat
  compression_method :: "16 word"
  local_header_offset :: "32 word"

datatype zip_ptr = Zip_Handle

datatype file_ptr = Current_File

text \<open>
  A \<^verbatim>\<open>const char *\<close> that a caller passes as a name: a string in the caller's own
  memory, or the address \<^verbatim>\<open>pas_zip__name_buf + k\<close> (with \<open>k\<close> below 512), which the caller
  has from \<^verbatim>\<open>pas_zip_name\<close> or from the callback of \<^verbatim>\<open>pas_zip_list\<close>. The byte at 511
  of the buffer is never written with anything but zero, so a string read at such an
  address ends inside the buffer.
\<close>

datatype str_ptr = Caller_String "byte list" | Name_Buf_At nat

record statics =
  pas_zip__handle :: pas_zip_t
  pas_zip__current_file :: pas_zip_file_t
  pas_zip__name_buf :: "byte list"

text \<open>The statics as the C runtime initialises them: all zero.\<close>

definition statics_init :: statics where
  "statics_init =
     \<lparr>pas_zip__handle = \<lparr>data = [], size_zip = 0, cd_offset = 0, num_entries = 0\<rparr>,
      pas_zip__current_file =
        \<lparr>name = Name_NULL, compressed_size = 0, uncompressed_size = 0,
         compression_method = 0, local_header_offset = 0\<rparr>,
      pas_zip__name_buf = replicate 512 0\<rparr>"

text \<open>The outcome of a call that can leave its buffers.\<close>

datatype 'a outcome = Returns 'a | Out_Of_Bounds

subsection \<open>C strings and little-endian fields\<close>

definition c_str :: "byte list \<Rightarrow> byte list" where
  "c_str s = takeWhile (\<lambda>b. b \<noteq> 0) s"

definition strlen :: "byte list \<Rightarrow> nat" where
  "strlen s = length (c_str s)"

text \<open>The bytes a name pointer points to, given the current contents of the name buffer.\<close>

definition deref_str :: "byte list \<Rightarrow> str_ptr \<Rightarrow> byte list" where
  "deref_str name_buf s =
     (case s of Caller_String q \<Rightarrow> q | Name_Buf_At k \<Rightarrow> drop k name_buf)"

definition read_u32_le :: "byte list \<Rightarrow> nat \<Rightarrow> 32 word" where
  "read_u32_le d p =
     (ucast (d ! p) OR push_bit 8 (ucast (d ! (p + 1)))
        OR push_bit 16 (ucast (d ! (p + 2))) OR push_bit 24 (ucast (d ! (p + 3))))"

definition read_u16_le :: "byte list \<Rightarrow> nat \<Rightarrow> 16 word" where
  "read_u16_le d p = (ucast (d ! p) OR push_bit 8 (ucast (d ! (p + 1))))"

text \<open>
  The writer stores a field one byte at a time,
  \<^verbatim>\<open>(uint8_t)(v), (uint8_t)(v>>8), ...\<close>; these are those bytes in order.
\<close>

definition put_u16 :: "16 word \<Rightarrow> byte list" where
  "put_u16 v = [ucast v, ucast (drop_bit 8 v)]"

definition put_u32 :: "32 word \<Rightarrow> byte list" where
  "put_u32 v = [ucast v, ucast (drop_bit 8 v), ucast (drop_bit 16 v), ucast (drop_bit 24 v)]"

subsection \<open>Opening an archive\<close>

text \<open>
  The loop of \<^verbatim>\<open>find_eocd\<close>, entered at \<open>i\<close>. The \<^verbatim>\<open>continue\<close> of its first line
  goes to \<^verbatim>\<open>i--\<close> without the exit test; at \<open>i = 0\<close> that would wrap \<open>i\<close>, which
  cannot happen because \<^verbatim>\<open>find_eocd\<close> has returned for \<open>size < 22\<close>: the model
  stops there.
\<close>

function find_eocd_from ::
  "byte list \<Rightarrow> nat \<Rightarrow> nat \<Rightarrow> nat \<Rightarrow> (32 word \<times> 16 word) option" where
  "find_eocd_from d sz search_end i =
     (if i + 22 > sz then
        (if i = 0 then None else find_eocd_from d sz search_end (i - 1))
      else if read_u32_le d i = PAS_ZIP_EOCD_SIG then
        (let num = read_u16_le d (i + 8);
             cd = read_u32_le d (i + 16)
         in if unat cd \<ge> sz then None else Some (cd, num))
      else if i \<le> search_end \<or> i = 0 then None
      else find_eocd_from d sz search_end (i - 1))"
  by pat_completeness auto
termination
  by (relation "measure (\<lambda>(d, sz, search_end, i). i)") auto

declare find_eocd_from.simps [simp del]

definition find_eocd :: "byte list \<Rightarrow> nat \<Rightarrow> (32 word \<times> 16 word) option" where
  "find_eocd d sz =
     (if sz < 22 then None
      else find_eocd_from d sz (if sz > 65557 then sz - 65557 else 0) (sz - 22))"

definition pas_zip_open ::
  "statics \<Rightarrow> byte list option \<Rightarrow> zip_ptr option \<times> pas_zip_status \<times> statics" where
  "pas_zip_open st d_opt =
     (case d_opt of
        None \<Rightarrow> (None, PAS_ZIP_E_INVALID, st)
      | Some d \<Rightarrow>
          if length d < 22 then (None, PAS_ZIP_E_INVALID, st)
          else
            (case find_eocd d (length d) of
               None \<Rightarrow> (None, PAS_ZIP_E_INVALID, st)
             | Some (cd, num) \<Rightarrow>
                 (Some Zip_Handle, PAS_ZIP_OK,
                  st\<lparr>pas_zip__handle :=
                       \<lparr>data = d, size_zip = length d, cd_offset = cd, num_entries = num\<rparr>\<rparr>)))"

subsection \<open>Walking the central directory\<close>

text \<open>
  \<^verbatim>\<open>parse_cd_entry\<close> at index \<open>p\<close>, with \<open>endp\<close> the index one past the archive. On
  success it has filled the entry and overwritten \<^verbatim>\<open>pas_zip__name_buf\<close>; the new
  contents of the buffer are returned with the entry.
\<close>

definition parse_cd_entry ::
  "byte list \<Rightarrow> nat \<Rightarrow> nat \<Rightarrow> byte list \<Rightarrow> (pas_zip_file_t \<times> byte list) option" where
  "parse_cd_entry d p endp name_buf =
     (if p + 46 > endp then None
      else if read_u32_le d p \<noteq> PAS_ZIP_CDH_SIG then None
      else
        (let fn_len = read_u16_le d (p + 28);
             extra_len = read_u16_le d (p + 30);
             comment_len = read_u16_le d (p + 32);
             need = 46 + unat fn_len + unat extra_len + unat comment_len
         in if p + need > endp then None
            else
              (let fn_len' = (if unat fn_len \<ge> 512 then 511 else fn_len);
                   copied = take (unat fn_len') (drop (p + 46) d) @ drop (unat fn_len') name_buf
               in Some
                    (\<lparr>name = Name_Buf,
                      compressed_size = unat (read_u32_le d (p + 20)),
                      uncompressed_size = unat (read_u32_le d (p + 24)),
                      compression_method = read_u16_le d (p + 10),
                      local_header_offset = read_u32_le d (p + 42)\<rparr>,
                     copied[unat fn_len' := 0]))))"

text \<open>
  The loop of \<^verbatim>\<open>cd_iterate\<close> with \<open>n\<close> entries still to read. The callback is a
  visitor that records what it is given: the string \<^verbatim>\<open>entry.name\<close> points to at that
  moment, and the size. \<^verbatim>\<open>strcmp\<close> reads \<^verbatim>\<open>find_name\<close> after \<^verbatim>\<open>parse_cd_entry\<close> has
  written the name buffer. The result is the return value, the entry stored through
  \<^verbatim>\<open>out\<close> (if any), the name buffer and the visitor's record.
\<close>

fun cd_iterate_loop ::
  "byte list \<Rightarrow> nat \<Rightarrow> str_ptr option \<Rightarrow> bool \<Rightarrow> nat \<Rightarrow> nat \<Rightarrow> byte list \<Rightarrow>
   (byte list \<times> nat) list \<Rightarrow>
   bool \<times> pas_zip_file_t option \<times> byte list \<times> (byte list \<times> nat) list" where
  "cd_iterate_loop d endp find_name cb 0 p name_buf calls =
     (find_name = None, None, name_buf, calls)"
| "cd_iterate_loop d endp find_name cb (Suc n) p name_buf calls =
     (if \<not> p < endp then (find_name = None, None, name_buf, calls)
      else
        (case parse_cd_entry d p endp name_buf of
           None \<Rightarrow> (False, None, name_buf, calls)
         | Some (entry, name_buf') \<Rightarrow>
             (let calls' =
                    (if cb then calls @ [(c_str name_buf', uncompressed_size entry)]
                     else calls)
              in if (case find_name of
                       None \<Rightarrow> False
                     | Some q \<Rightarrow> c_str name_buf' = c_str (deref_str name_buf' q))
                 then (True, Some entry, name_buf', calls')
                 else
                   cd_iterate_loop d endp find_name cb n
                     (p + 46 + unat (read_u16_le d (p + 28)) + unat (read_u16_le d (p + 30))
                        + unat (read_u16_le d (p + 32)))
                     name_buf' calls')))"

definition cd_iterate ::
  "pas_zip_t \<Rightarrow> str_ptr option \<Rightarrow> bool \<Rightarrow> byte list \<Rightarrow>
   bool \<times> pas_zip_file_t option \<times> byte list \<times> (byte list \<times> nat) list" where
  "cd_iterate zp find_name cb name_buf =
     cd_iterate_loop (data zp) (size_zip zp) find_name cb (unat (num_entries zp))
       (unat (cd_offset zp)) name_buf []"

definition pas_zip_find ::
  "statics \<Rightarrow> zip_ptr option \<Rightarrow> str_ptr option \<Rightarrow> file_ptr option \<times> statics" where
  "pas_zip_find st zp find_name =
     (case (zp, find_name) of
        (Some Zip_Handle, Some q) \<Rightarrow>
          (case cd_iterate (pas_zip__handle st) (Some q) False (pas_zip__name_buf st) of
             (True, Some ent, name_buf', calls) \<Rightarrow>
               (Some Current_File,
                st\<lparr>pas_zip__current_file := ent, pas_zip__name_buf := name_buf'\<rparr>)
           | (r, ent, name_buf', calls) \<Rightarrow> (None, st\<lparr>pas_zip__name_buf := name_buf'\<rparr>))
      | _ \<Rightarrow> (None, st))"

text \<open>
  \<^verbatim>\<open>pas_zip_list\<close>: the return value (0 or -1), what the callback was given, and the
  statics. The second argument says whether a callback was passed.
\<close>

definition pas_zip_list ::
  "statics \<Rightarrow> zip_ptr option \<Rightarrow> bool \<Rightarrow> int \<times> (byte list \<times> nat) list \<times> statics" where
  "pas_zip_list st zp callback =
     (case zp of
        None \<Rightarrow> (- 1, [], st)
      | Some Zip_Handle \<Rightarrow>
          if \<not> callback then (- 1, [], st)
          else
            (case cd_iterate (pas_zip__handle st) None True (pas_zip__name_buf st) of
               (r, ent, name_buf', calls) \<Rightarrow>
                 (if r then 0 else - 1, calls, st\<lparr>pas_zip__name_buf := name_buf'\<rparr>)))"

text \<open>
  What a caller reads through a pointer returned by \<^verbatim>\<open>pas_zip_find\<close>: the fields of
  the struct it points to and, through \<^verbatim>\<open>name\<close>, a C string.
\<close>

definition deref_file :: "statics \<Rightarrow> file_ptr \<Rightarrow> pas_zip_file_t" where
  "deref_file st f = (case f of Current_File \<Rightarrow> pas_zip__current_file st)"

definition pas_zip_name :: "statics \<Rightarrow> file_ptr option \<Rightarrow> byte list option" where
  "pas_zip_name st f =
     (case f of
        None \<Rightarrow> None
      | Some f' \<Rightarrow>
          (case name (deref_file st f') of
             Name_NULL \<Rightarrow> None
           | Name_Buf \<Rightarrow> Some (c_str (pas_zip__name_buf st))))"

definition pas_zip_size :: "statics \<Rightarrow> file_ptr option \<Rightarrow> nat" where
  "pas_zip_size st f =
     (case f of None \<Rightarrow> 0 | Some f' \<Rightarrow> uncompressed_size (deref_file st f'))"

definition pas_zip_is_compressed :: "statics \<Rightarrow> file_ptr option \<Rightarrow> bool" where
  "pas_zip_is_compressed st f =
     (case f of
        None \<Rightarrow> False
      | Some f' \<Rightarrow> compression_method (deref_file st f') \<noteq> PAS_ZIP_METHOD_STORE)"

subsection \<open>Extraction\<close>

text \<open>
  \<^verbatim>\<open>skip_local_header\<close>. The sum \<^verbatim>\<open>offset + 30\<close> is taken at 32 bits. Where it has
  wrapped, the test passes and the reads at \<^verbatim>\<open>data + offset\<close> may lie outside the
  archive.
\<close>

definition skip_local_header :: "byte list \<Rightarrow> nat \<Rightarrow> 32 word \<Rightarrow> nat outcome" where
  "skip_local_header d sz offset =
     (if unat (offset + 30) > sz then Returns 0
      else if unat offset + 4 > length d then Out_Of_Bounds
      else if read_u32_le d (unat offset) \<noteq> PAS_ZIP_LFH_SIG then Returns 0
      else if unat offset + 30 > length d then Out_Of_Bounds
      else
        Returns
          (30 + unat (read_u16_le d (unat offset + 26))
             + unat (read_u16_le d (unat offset + 28))))"

text \<open>
  The body of \<^verbatim>\<open>pas_zip_extract\<close> after its NULL tests, with the locals
  \<^verbatim>\<open>data\<close> and \<^verbatim>\<open>data_size\<close> as parameters. \<^verbatim>\<open>buffer_size\<close> is the length of the
  destination. The result is the return value, the status and the destination. The
  capacity test is on \<^verbatim>\<open>uncompressed_size\<close> and the Store branch copies
  \<^verbatim>\<open>compressed_size\<close> bytes: where these do not fit the destination, or the archive,
  the copy is \<open>Out_Of_Bounds\<close>.
\<close>

definition extract_from ::
  "byte list \<Rightarrow> nat \<Rightarrow> pas_zip_file_t \<Rightarrow> byte list \<Rightarrow>
   (nat \<times> pas_zip_status \<times> byte list) outcome" where
  "extract_from d data_size file buffer =
     (case skip_local_header d data_size (local_header_offset file) of
        Out_Of_Bounds \<Rightarrow> Out_Of_Bounds
      | Returns payload_offset \<Rightarrow>
          if payload_offset = 0 then Returns (0, PAS_ZIP_E_INVALID, buffer)
          else if payload_offset + compressed_size file > data_size
            then Returns (0, PAS_ZIP_E_INVALID, buffer)
          else if length buffer < uncompressed_size file
            then Returns (0, PAS_ZIP_E_NOSPACE, buffer)
          else if compression_method file = PAS_ZIP_METHOD_STORE then
            (if compressed_size file > length buffer
               \<or> payload_offset + compressed_size file > length d
             then Out_Of_Bounds
             else
               Returns
                 (uncompressed_size file, PAS_ZIP_OK,
                  take (compressed_size file) (drop payload_offset d)
                    @ drop (compressed_size file) buffer))
          else if compression_method file = PAS_ZIP_METHOD_DEFLATE
            then Returns (0, PAS_ZIP_E_COMPRESSED, buffer)
          else Returns (0, PAS_ZIP_E_INVALID, buffer))"

definition pas_zip_extract ::
  "statics \<Rightarrow> file_ptr option \<Rightarrow> byte list option \<Rightarrow>
   (nat \<times> pas_zip_status \<times> byte list option) outcome" where
  "pas_zip_extract st file buffer =
     (case (file, buffer) of
        (Some f, Some b) \<Rightarrow>
          (case extract_from (data (pas_zip__handle st)) (size_zip (pas_zip__handle st))
                  (deref_file st f) b of
             Out_Of_Bounds \<Rightarrow> Out_Of_Bounds
           | Returns (r, s, b') \<Rightarrow> Returns (r, s, Some b'))
      | _ \<Rightarrow> Returns (0, PAS_ZIP_E_INVALID, buffer))"

subsection \<open>Building an archive\<close>

text \<open>
  The input is the list of (file name, payload) pairs: \<^verbatim>\<open>filenames[i]\<close> is a C string,
  \<^verbatim>\<open>sizes[i]\<close> is the length of the payload, \<^verbatim>\<open>file_count\<close> the length of the list.
  The function stores to \<^verbatim>\<open>out[0]\<close>, \<^verbatim>\<open>out[1]\<close>, ... in order, so the bytes it has
  stored are a list \<open>out\<close> and \<^verbatim>\<open>written\<close> is its length. The list is the trace of
  the stores: where it is longer than \<^verbatim>\<open>buffer_size\<close>, the call has stored outside the
  destination.
\<close>

type_synonym zip_input = "(byte list \<times> byte list) list"

text \<open>
  The stores of one pass of the first loop, after its capacity test: the header bytes in
  the order of the source, then \<^verbatim>\<open>fn_len\<close> bytes of the name and \<^verbatim>\<open>sz\<close> bytes of the
  payload.
\<close>

definition emit_local :: "16 word \<Rightarrow> 32 word \<Rightarrow> byte list \<Rightarrow> byte list \<Rightarrow> byte list" where
  "emit_local fn_len sz fname payload =
     [0x50, 0x4b, 0x03, 0x04] @ [20, 0, 0, 0] @ [0, 0] @ replicate 12 0
       @ put_u32 sz @ put_u32 sz @ put_u16 fn_len @ [0, 0]
       @ take (unat fn_len) fname @ take (unat sz) payload"

text \<open>
  The first loop. \<^verbatim>\<open>fn_len\<close> and \<^verbatim>\<open>sz\<close> are the conversions of \<^verbatim>\<open>strlen\<close> and of
  \<^verbatim>\<open>sizes[i]\<close> to 16 and 32 bits, and \<^verbatim>\<open>need\<close> is the sum \<^verbatim>\<open>30 + fn_len + sz\<close> taken
  at 32 bits. The result is the status of an early return, if any, and the stores so far.
\<close>

fun create_locals ::
  "zip_input \<Rightarrow> nat \<Rightarrow> byte list \<Rightarrow> pas_zip_status option \<times> byte list" where
  "create_locals [] buffer_size out = (None, out)"
| "create_locals ((fname, payload) # rest) buffer_size out =
     (let fn_len = (of_nat (strlen fname) :: 16 word);
          sz = (of_nat (length payload) :: 32 word);
          need = unat (30 + ucast fn_len + sz :: 32 word)
      in if unat fn_len \<noteq> strlen fname then (Some PAS_ZIP_E_INVALID, out)
         else if length out + need > buffer_size then (Some PAS_ZIP_E_NOSPACE, out)
         else create_locals rest buffer_size (out @ emit_local fn_len sz fname payload))"

text \<open>The inner loop over \<open>j < i\<close> of the second loop, at 32 bits.\<close>

definition local_off_of :: "zip_input \<Rightarrow> nat \<Rightarrow> 32 word" where
  "local_off_of es i =
     fold (\<lambda>(fname, payload) local_off.
             local_off + (30 + of_nat (strlen fname) + of_nat (length payload)))
       (take i es) 0"

text \<open>The stores of one pass of the second loop, after its capacity test.\<close>

definition emit_cd :: "16 word \<Rightarrow> 32 word \<Rightarrow> byte list \<Rightarrow> byte list" where
  "emit_cd fn_len local_off fname =
     [0x50, 0x4b, 0x01, 0x02] @ [20, 0, 20, 0] @ [0, 0, 0, 0] @ replicate 12 0
       @ put_u16 fn_len @ [0, 0, 0, 0] @ [0, 0, 0, 0] @ [0, 0]
       @ put_u32 local_off
       @ take (unat fn_len) fname"

text \<open>
  The second loop at index \<open>i\<close>, with \<^verbatim>\<open>cd_size\<close> accumulated at 32 bits. The result
  is the status of an early return, if any, the stores so far and \<^verbatim>\<open>cd_size\<close>.
\<close>

function create_cd ::
  "zip_input \<Rightarrow> nat \<Rightarrow> nat \<Rightarrow> byte list \<Rightarrow> 32 word \<Rightarrow>
   pas_zip_status option \<times> byte list \<times> 32 word" where
  "create_cd es buffer_size i out cd_size =
     (if i < length es then
        (let fname = fst (es ! i);
             fn_len = (of_nat (strlen fname) :: 16 word);
             local_off = local_off_of es i
         in if length out + 46 + unat fn_len > buffer_size
            then (Some PAS_ZIP_E_NOSPACE, out, cd_size)
            else
              create_cd es buffer_size (i + 1) (out @ emit_cd fn_len local_off fname)
                (cd_size + (46 + ucast fn_len)))
      else (None, out, cd_size))"
  by pat_completeness auto
termination
  by (relation "measure (\<lambda>(es, buffer_size, i, out, cd_size). length es - i)") auto

declare create_cd.simps [simp del]

text \<open>The stores of the trailer.\<close>

definition emit_eocd :: "nat \<Rightarrow> 32 word \<Rightarrow> 32 word \<Rightarrow> byte list" where
  "emit_eocd file_count cd_size cd_off =
     [0x50, 0x4b, 0x05, 0x06] @ replicate 4 0
       @ [of_nat file_count, of_nat (drop_bit 8 file_count)]
       @ [of_nat file_count, of_nat (drop_bit 8 file_count)]
       @ put_u32 cd_size @ put_u32 cd_off @ [0, 0]"

text \<open>
  \<^verbatim>\<open>pas_zip_create\<close>: the return value, the status, and the bytes stored from
  \<^verbatim>\<open>out[0]\<close> on by the time it returns.
\<close>

definition pas_zip_create :: "zip_input \<Rightarrow> nat \<Rightarrow> nat \<times> pas_zip_status \<times> byte list" where
  "pas_zip_create es buffer_size =
     (if length es = 0 then (0, PAS_ZIP_E_INVALID, [])
      else
        (case create_locals es buffer_size [] of
           (Some err, out) \<Rightarrow> (0, err, out)
         | (None, out) \<Rightarrow>
             (let cd_off = (of_nat (length out) :: 32 word)
              in case create_cd es buffer_size 0 out 0 of
                   (Some err, out', cd_size) \<Rightarrow> (0, err, out')
                 | (None, out', cd_size) \<Rightarrow>
                     if length out' + 22 > buffer_size then (0, PAS_ZIP_E_NOSPACE, out')
                     else
                       (length out' + 22, PAS_ZIP_OK,
                        out' @ emit_eocd (length es) cd_size cd_off))))"

subsection \<open>Notions the properties are stated with\<close>

text \<open>The end-of-central-directory signature stands at index \<open>p\<close>.\<close>

definition eocd_sig_at :: "byte list \<Rightarrow> nat \<Rightarrow> bool" where
  "eocd_sig_at d p = (read_u32_le d p = PAS_ZIP_EOCD_SIG)"

text \<open>
  The trailer of the archive is at \<open>t\<close>: the signature is there, the 22 bytes of the
  record and the comment whose length it declares end exactly at the end of the buffer,
  and the central-directory offset it declares is inside the buffer.
\<close>

definition true_trailer :: "byte list \<Rightarrow> nat \<Rightarrow> bool" where
  "true_trailer d t =
     (eocd_sig_at d t
      \<and> t + 22 + unat (read_u16_le d (t + 20)) = length d
      \<and> unat (read_u32_le d (t + 16)) < length d)"

text \<open>
  A central-directory record stands at index \<open>p\<close> of the archive: its 46-byte header is
  inside the archive and carries the signature, and so are the name, extra field and
  comment whose lengths it declares.
\<close>

definition cd_record_at :: "byte list \<Rightarrow> nat \<Rightarrow> bool" where
  "cd_record_at d p =
     (p + 46 \<le> length d \<and> read_u32_le d p = PAS_ZIP_CDH_SIG
      \<and> p + 46 + unat (read_u16_le d (p + 28)) + unat (read_u16_le d (p + 30))
           + unat (read_u16_le d (p + 32)) \<le> length d)"

text \<open>The file name a central-directory record at \<open>p\<close> stores, in full.\<close>

definition stored_name :: "byte list \<Rightarrow> nat \<Rightarrow> byte list" where
  "stored_name d p = take (unat (read_u16_le d (p + 28))) (drop (p + 46) d)"

text \<open>
  A Store entry is structurally valid for the archive \<open>d\<close>: its two sizes are equal, its
  local header is inside the archive and carries the signature, and the payload that
  follows the header, the name and the extra field is inside the archive.
\<close>

definition valid_store_entry :: "byte list \<Rightarrow> pas_zip_file_t \<Rightarrow> bool" where
  "valid_store_entry d e =
     (compression_method e = PAS_ZIP_METHOD_STORE
      \<and> compressed_size e = uncompressed_size e
      \<and> unat (local_header_offset e) + 30 \<le> length d
      \<and> read_u32_le d (unat (local_header_offset e)) = PAS_ZIP_LFH_SIG
      \<and> unat (local_header_offset e) + 30
            + unat (read_u16_le d (unat (local_header_offset e) + 26))
            + unat (read_u16_le d (unat (local_header_offset e) + 28))
            + compressed_size e \<le> length d)"

text \<open>
  The walk of the central directory: the indices at which the cursor of \<^verbatim>\<open>cd_iterate\<close>
  stands on a record, from \<open>p\<close> on and with \<open>n\<close> entries to read, as long as no name has
  matched. It ends at the first index where no record stands.
\<close>

fun cd_walk :: "byte list \<Rightarrow> nat \<Rightarrow> nat \<Rightarrow> nat list" where
  "cd_walk d 0 p = []"
| "cd_walk d (Suc n) p =
     (if cd_record_at d p then
        p # cd_walk d n
              (p + 46 + unat (read_u16_le d (p + 28)) + unat (read_u16_le d (p + 30))
                 + unat (read_u16_le d (p + 32)))
      else [])"

definition cd_walk_of :: "pas_zip_t \<Rightarrow> nat list" where
  "cd_walk_of h = cd_walk (data h) (unat (num_entries h)) (unat (cd_offset h))"

text \<open>
  The entry a central-directory record at \<open>p\<close> describes: method, sizes and local-header
  offset from the fields at 10, 20, 24 and 42.
\<close>

definition cd_entry_at :: "byte list \<Rightarrow> nat \<Rightarrow> pas_zip_file_t" where
  "cd_entry_at d p =
     \<lparr>name = Name_Buf,
      compressed_size = unat (read_u32_le d (p + 20)),
      uncompressed_size = unat (read_u32_le d (p + 24)),
      compression_method = read_u16_le d (p + 10),
      local_header_offset = read_u32_le d (p + 42)\<rparr>"

subsection \<open>Example inputs\<close>

text \<open>The file name \<^verbatim>\<open>"a.txt"\<close> and the payload \<^verbatim>\<open>"hi"\<close>.\<close>

definition name_a_txt :: "byte list" where
  "name_a_txt = [0x61, 0x2e, 0x74, 0x78, 0x74]"

definition payload_hi :: "byte list" where
  "payload_hi = [0x68, 0x69]"

text \<open>
  The 108 bytes \<^verbatim>\<open>pas_zip_create\<close> stores for the single entry
  \<^verbatim>\<open>("a.txt", "hi")\<close>: a local record of 34 + 5 + 2 bytes at 0, a central-directory
  record of 40 + 5 bytes at 41, the trailer at 86.
\<close>

definition created_a_txt :: "byte list" where
  "created_a_txt =
     [0x50, 0x4b, 0x03, 0x04, 20, 0, 0, 0, 0, 0,
      0, 0, 0, 0, 0, 0, 0, 0, 0, 0, 0, 0,
      2, 0, 0, 0, 2, 0, 0, 0, 5, 0, 0, 0,
      0x61, 0x2e, 0x74, 0x78, 0x74,
      0x68, 0x69,
      0x50, 0x4b, 0x01, 0x02, 20, 0, 20, 0, 0, 0, 0, 0,
      0, 0, 0, 0, 0, 0, 0, 0, 0, 0, 0, 0,
      5, 0, 0, 0, 0, 0, 0, 0, 0, 0, 0, 0, 0, 0, 0, 0,
      0x61, 0x2e, 0x74, 0x78, 0x74,
      0x50, 0x4b, 0x05, 0x06, 0, 0, 0, 0, 1, 0, 1, 0, 51, 0, 0, 0, 41, 0, 0, 0, 0, 0]"

definition st_created_opened :: statics where
  "st_created_opened =
     statics_init
       \<lparr>pas_zip__handle :=
          \<lparr>data = created_a_txt, size_zip = 108, cd_offset = 41, num_entries = 1\<rparr>\<rparr>"

text \<open>
  A well-formed archive of the two stored files \<^verbatim>\<open>a\<close> (payload \<^verbatim>\<open>X\<close>) and \<^verbatim>\<open>b\<close>
  (payload \<^verbatim>\<open>Y\<close>) in the standard layout: local records at 0 and 32 (30-byte header,
  one byte of name, one byte of payload), central-directory records at 64 and 111
  (46-byte header, one byte of name), the trailer at 158.
\<close>

definition zip_two_files :: "byte list" where
  "zip_two_files =
     [0x50, 0x4b, 0x03, 0x04, 0x14, 0x00, 0x00, 0x00, 0x00, 0x00, 0x00, 0x00, 0x00, 0x00,
      0x4b, 0x36, 0xb2, 0xb7, 0x01, 0x00, 0x00, 0x00, 0x01, 0x00, 0x00, 0x00,
      0x01, 0x00, 0x00, 0x00, 0x61, 0x58,
      0x50, 0x4b, 0x03, 0x04, 0x14, 0x00, 0x00, 0x00, 0x00, 0x00, 0x00, 0x00, 0x00, 0x00,
      0xdd, 0x06, 0xb5, 0xc0, 0x01, 0x00, 0x00, 0x00, 0x01, 0x00, 0x00, 0x00,
      0x01, 0x00, 0x00, 0x00, 0x62, 0x59,
      0x50, 0x4b, 0x01, 0x02, 0x14, 0x00, 0x14, 0x00, 0x00, 0x00, 0x00, 0x00,
      0x00, 0x00, 0x00, 0x00, 0x4b, 0x36, 0xb2, 0xb7,
      0x01, 0x00, 0x00, 0x00, 0x01, 0x00, 0x00, 0x00, 0x01, 0x00, 0x00, 0x00,
      0x00, 0x00, 0x00, 0x00, 0x00, 0x00, 0x00, 0x00, 0x00, 0x00,
      0x00, 0x00, 0x00, 0x00, 0x61,
      0x50, 0x4b, 0x01, 0x02, 0x14, 0x00, 0x14, 0x00, 0x00, 0x00, 0x00, 0x00,
      0x00, 0x00, 0x00, 0x00, 0xdd, 0x06, 0xb5, 0xc0,
      0x01, 0x00, 0x00, 0x00, 0x01, 0x00, 0x00, 0x00, 0x01, 0x00, 0x00, 0x00,
      0x00, 0x00, 0x00, 0x00, 0x00, 0x00, 0x00, 0x00, 0x00, 0x00,
      0x20, 0x00, 0x00, 0x00, 0x62,
      0x50, 0x4b, 0x05, 0x06, 0x00, 0x00, 0x00, 0x00, 0x02, 0x00, 0x02, 0x00,
      0x5e, 0x00, 0x00, 0x00, 0x40, 0x00, 0x00, 0x00, 0x00, 0x00]"

text \<open>
  The statics after \<^verbatim>\<open>pas_zip_open\<close> on that archive from the initial state, and
  after \<^verbatim>\<open>pas_zip_find\<close> of \<^verbatim>\<open>"a"\<close> and of \<^verbatim>\<open>"b"\<close> from there.
\<close>

definition st_two_opened :: statics where
  "st_two_opened =
     statics_init
       \<lparr>pas_zip__handle :=
          \<lparr>data = zip_two_files, size_zip = 180, cd_offset = 64, num_entries = 2\<rparr>\<rparr>"

definition st_two_found_a :: statics where
  "st_two_found_a =
     st_two_opened
       \<lparr>pas_zip__current_file :=
          \<lparr>name = Name_Buf, compressed_size = 1, uncompressed_size = 1,
           compression_method = 0, local_header_offset = 0\<rparr>,
        pas_zip__name_buf := 0x61 # replicate 511 0\<rparr>"

definition st_two_found_b :: statics where
  "st_two_found_b =
     st_two_opened
       \<lparr>pas_zip__current_file :=
          \<lparr>name = Name_Buf, compressed_size = 1, uncompressed_size = 1,
           compression_method = 0, local_header_offset = 32\<rparr>,
        pas_zip__name_buf := 0x62 # replicate 511 0\<rparr>"

text \<open>
  Two well-formed archives of one stored file \<^verbatim>\<open>a\<close> whose four bytes of payload, at 31,
  are the end-of-central-directory signature. The central directory is at 35 and the
  trailer at 82. In the first the trailer declares a comment of 22 bytes, which begins
  with the signature again; in the second the comment is \<^verbatim>\<open>hello\<close>.
\<close>

definition zip_comment_decoy :: "byte list" where
  "zip_comment_decoy =
     [0x50, 0x4b, 0x03, 0x04, 0x14, 0x00, 0x00, 0x00, 0x00, 0x00, 0x00, 0x00, 0x00, 0x00,
      0xef, 0xe3, 0x92, 0x02, 0x04, 0x00, 0x00, 0x00, 0x04, 0x00, 0x00, 0x00,
      0x01, 0x00, 0x00, 0x00, 0x61,
      0x50, 0x4b, 0x05, 0x06,
      0x50, 0x4b, 0x01, 0x02, 0x14, 0x00, 0x14, 0x00, 0x00, 0x00, 0x00, 0x00,
      0x00, 0x00, 0x00, 0x00, 0xef, 0xe3, 0x92, 0x02,
      0x04, 0x00, 0x00, 0x00, 0x04, 0x00, 0x00, 0x00, 0x01, 0x00, 0x00, 0x00,
      0x00, 0x00, 0x00, 0x00, 0x00, 0x00, 0x00, 0x00, 0x00, 0x00,
      0x00, 0x00, 0x00, 0x00, 0x61,
      0x50, 0x4b, 0x05, 0x06, 0x00, 0x00, 0x00, 0x00, 0x01, 0x00, 0x01, 0x00,
      0x2f, 0x00, 0x00, 0x00, 0x23, 0x00, 0x00, 0x00, 0x16, 0x00,
      0x50, 0x4b, 0x05, 0x06, 0x00, 0x00, 0x00, 0x00, 0x00, 0x00, 0x00, 0x00,
      0x00, 0x00, 0x00, 0x00, 0x00, 0x00, 0x00, 0x00, 0x01, 0x00]"

definition zip_comment_hello :: "byte list" where
  "zip_comment_hello =
     [0x50, 0x4b, 0x03, 0x04, 0x14, 0x00, 0x00, 0x00, 0x00, 0x00, 0x00, 0x00, 0x00, 0x00,
      0xef, 0xe3, 0x92, 0x02, 0x04, 0x00, 0x00, 0x00, 0x04, 0x00, 0x00, 0x00,
      0x01, 0x00, 0x00, 0x00, 0x61,
      0x50, 0x4b, 0x05, 0x06,
      0x50, 0x4b, 0x01, 0x02, 0x14, 0x00, 0x14, 0x00, 0x00, 0x00, 0x00, 0x00,
      0x00, 0x00, 0x00, 0x00, 0xef, 0xe3, 0x92, 0x02,
      0x04, 0x00, 0x00, 0x00, 0x04, 0x00, 0x00, 0x00, 0x01, 0x00, 0x00, 0x00,
      0x00, 0x00, 0x00, 0x00, 0x00, 0x00, 0x00, 0x00, 0x00, 0x00,
      0x00, 0x00, 0x00, 0x00, 0x61,
      0x50, 0x4b, 0x05, 0x06, 0x00, 0x00, 0x00, 0x00, 0x01, 0x00, 0x01, 0x00,
      0x2f, 0x00, 0x00, 0x00, 0x23, 0x00, 0x00, 0x00, 0x05, 0x00,
      0x68, 0x65, 0x6c, 0x6c, 0x6f]"




text \<open>
  An archive of one file \<^verbatim>\<open>a\<close> with method Store whose records declare a compressed
  size of 5 and an uncompressed size of 3: the local record at 0, the central-directory
  record at 36, the trailer at 83. With it the statics after \<^verbatim>\<open>pas_zip_open\<close> and after
  \<^verbatim>\<open>pas_zip_find\<close> of \<^verbatim>\<open>"a"\<close>.
\<close>

definition zip_sizes_differ :: "byte list" where
  "zip_sizes_differ =
     [0x50, 0x4b, 0x03, 0x04, 0x14, 0x00, 0x00, 0x00, 0x00, 0x00, 0x00, 0x00, 0x00, 0x00,
      0xc8, 0x25, 0x85, 0xb5, 0x05, 0x00, 0x00, 0x00, 0x03, 0x00, 0x00, 0x00,
      0x01, 0x00, 0x00, 0x00, 0x61,
      0x58, 0x58, 0x58, 0x58, 0x58,
      0x50, 0x4b, 0x01, 0x02, 0x14, 0x00, 0x14, 0x00, 0x00, 0x00, 0x00, 0x00,
      0x00, 0x00, 0x00, 0x00, 0xc8, 0x25, 0x85, 0xb5,
      0x05, 0x00, 0x00, 0x00, 0x03, 0x00, 0x00, 0x00, 0x01, 0x00, 0x00, 0x00,
      0x00, 0x00, 0x00, 0x00, 0x00, 0x00, 0x00, 0x00, 0x00, 0x00,
      0x00, 0x00, 0x00, 0x00, 0x61,
      0x50, 0x4b, 0x05, 0x06, 0x00, 0x00, 0x00, 0x00, 0x01, 0x00, 0x01, 0x00,
      0x2f, 0x00, 0x00, 0x00, 0x24, 0x00, 0x00, 0x00, 0x00, 0x00]"

definition st_differ_opened :: statics where
  "st_differ_opened =
     statics_init
       \<lparr>pas_zip__handle :=
          \<lparr>data = zip_sizes_differ, size_zip = 105, cd_offset = 36, num_entries = 1\<rparr>\<rparr>"

definition st_differ_found :: statics where
  "st_differ_found =
     st_differ_opened
       \<lparr>pas_zip__current_file :=
          \<lparr>name = Name_Buf, compressed_size = 5, uncompressed_size = 3,
           compression_method = 0, local_header_offset = 0\<rparr>,
        pas_zip__name_buf := 0x61 # replicate 511 0\<rparr>"

text \<open>
  The statics after \<^verbatim>\<open>pas_zip_list\<close>, or after \<^verbatim>\<open>pas_zip_find\<close> of the absent name
  \<^verbatim>\<open>"z"\<close>, called in the state \<open>st_two_found_a\<close>.
\<close>

definition st_two_listed :: statics where
  "st_two_listed = st_two_found_a\<lparr>pas_zip__name_buf := 0x62 # replicate 511 0\<rparr>"




section \<open>Evaluation of the code on the example inputs\<close>

lemma create_a_txt_256:
  "pas_zip_create [(name_a_txt, payload_hi)] 256 = (108, PAS_ZIP_OK, created_a_txt)"
  by code_simp

lemma create_a_txt_37:
  "pas_zip_create [(name_a_txt, payload_hi)] 37 = (0, PAS_ZIP_E_NOSPACE, take 41 created_a_txt)"
  by code_simp

lemma open_created_a_txt:
  "pas_zip_open statics_init (Some created_a_txt)
     = (Some Zip_Handle, PAS_ZIP_OK, st_created_opened)"
  by (simp add: pas_zip_open_def find_eocd_def find_eocd_from.simps read_u32_le_def
      read_u16_le_def created_a_txt_def st_created_opened_def PAS_ZIP_EOCD_SIG_def)

lemma find_created_a_txt:
  "fst (pas_zip_find st_created_opened (Some Zip_Handle) (Some (Caller_String name_a_txt))) = None"
  by code_simp

lemma open_two_files:
  "pas_zip_open statics_init (Some zip_two_files) = (Some Zip_Handle, PAS_ZIP_OK, st_two_opened)"
  by (simp add: pas_zip_open_def find_eocd_def find_eocd_from.simps read_u32_le_def
      read_u16_le_def zip_two_files_def st_two_opened_def PAS_ZIP_EOCD_SIG_def)

lemma find_two_a:
  "pas_zip_find st_two_opened (Some Zip_Handle) (Some (Caller_String [0x61]))
     = (Some Current_File, st_two_found_a)"
  by code_simp

lemma find_two_b:
  "pas_zip_find st_two_opened (Some Zip_Handle) (Some (Caller_String [0x62]))
     = (Some Current_File, st_two_found_b)"
  by code_simp

lemma find_two_b_after_a:
  "pas_zip_find st_two_found_a (Some Zip_Handle) (Some (Caller_String [0x62]))
     = (Some Current_File, st_two_found_b)"
  by code_simp

lemma extract_two_b:
  "pas_zip_extract st_two_found_b (Some Current_File) (Some [0])
     = Returns (1, PAS_ZIP_OK, Some [0x58])"
  by code_simp

section \<open>The writer\<close>

text \<open>
  C1 (round trip). \<^verbatim>\<open>pas_zip_create\<close> of the single entry \<^verbatim>\<open>("a.txt", "hi")\<close> into
  a destination of 256 bytes succeeds with 108 bytes; \<^verbatim>\<open>pas_zip_open\<close> on those bytes
  succeeds and reports one entry; \<^verbatim>\<open>pas_zip_find\<close> of \<^verbatim>\<open>"a.txt"\<close> then returns
  NULL, so there is nothing to extract and the payload does not come back.
\<close>

theorem create_open_find_loses_entry:
  "pas_zip_create [(name_a_txt, payload_hi)] 256 = (108, PAS_ZIP_OK, created_a_txt)
   \<and> pas_zip_open statics_init (Some created_a_txt)
       = (Some Zip_Handle, PAS_ZIP_OK, st_created_opened)
   \<and> num_entries (pas_zip__handle st_created_opened) = 1
   \<and> fst (pas_zip_find st_created_opened (Some Zip_Handle) (Some (Caller_String name_a_txt))) = None"
  using create_a_txt_256 open_created_a_txt find_created_a_txt
  by (simp add: st_created_opened_def)

text \<open>
  C3 (record layout). For the single entry \<^verbatim>\<open>("a.txt", "hi")\<close> the call succeeds and
  stores \<open>created_a_txt\<close>. Its local header is 34 bytes long: the file name is at 34 to
  38 and the payload at 39 to 40; the field at 18 holds 0, the payload length 2 is at 22
  and at 26, and the name length 5 is at 30. Its central-directory record, at 41, is 40
  bytes long: the trailer follows the 5 bytes of name at 86; the fields at 20, 24 and 28
  hold 0, 5 and 0, and the local-header offset is at 36, not at 42.
\<close>

theorem create_layout_of_a_txt:
  "pas_zip_create [(name_a_txt, payload_hi)] 256 = (108, PAS_ZIP_OK, created_a_txt)
   \<and> take 5 (drop 34 created_a_txt) = name_a_txt
   \<and> take 2 (drop 39 created_a_txt) = payload_hi
   \<and> read_u32_le created_a_txt 18 = 0
   \<and> read_u32_le created_a_txt 22 = 2
   \<and> read_u16_le created_a_txt 26 = 2
   \<and> read_u16_le created_a_txt 30 = 5
   \<and> read_u32_le created_a_txt 41 = PAS_ZIP_CDH_SIG
   \<and> read_u32_le created_a_txt (41 + 20) = 0
   \<and> read_u32_le created_a_txt (41 + 24) = 5
   \<and> read_u16_le created_a_txt (41 + 28) = 0
   \<and> read_u32_le created_a_txt (41 + 36) = 0
   \<and> take 5 (drop (41 + 40) created_a_txt) = name_a_txt
   \<and> read_u32_le created_a_txt (41 + 40 + 5) = PAS_ZIP_EOCD_SIG
   \<and> length created_a_txt = 41 + 45 + 22"
proof -
  have "take 5 (drop 34 created_a_txt) = name_a_txt"
    and "take 2 (drop 39 created_a_txt) = payload_hi"
    and "take 5 (drop (41 + 40) created_a_txt) = name_a_txt"
    and "length created_a_txt = 41 + 45 + 22"
    by (simp_all add: created_a_txt_def name_a_txt_def payload_hi_def)
  moreover have "read_u32_le created_a_txt 18 = 0"
    and "read_u32_le created_a_txt 22 = 2"
    and "read_u16_le created_a_txt 26 = 2"
    and "read_u16_le created_a_txt 30 = 5"
    by (simp_all add: read_u32_le_def read_u16_le_def created_a_txt_def)
  moreover have "read_u32_le created_a_txt 41 = PAS_ZIP_CDH_SIG"
    and "read_u32_le created_a_txt (41 + 20) = 0"
    and "read_u32_le created_a_txt (41 + 24) = 5"
    and "read_u16_le created_a_txt (41 + 28) = 0"
    and "read_u32_le created_a_txt (41 + 36) = 0"
    and "read_u32_le created_a_txt (41 + 40 + 5) = PAS_ZIP_EOCD_SIG"
    by (simp_all add: read_u32_le_def read_u16_le_def created_a_txt_def
        PAS_ZIP_CDH_SIG_def PAS_ZIP_EOCD_SIG_def)
  ultimately show ?thesis
    using create_a_txt_256 by simp
qed

text \<open>
  C4 (capacity). With a destination of 37 bytes, the first loop's test admits the entry
  \<^verbatim>\<open>("a.txt", "hi")\<close> (30 + 5 + 2 = 37) and the pass then stores 41 bytes, four of them
  beyond the destination; the call goes on to return 0 with \<^verbatim>\<open>PAS_ZIP_E_NOSPACE\<close>.
\<close>

theorem create_stores_beyond_capacity:
  "pas_zip_create [(name_a_txt, payload_hi)] 37
     = (0, PAS_ZIP_E_NOSPACE, take 41 created_a_txt)
   \<and> length (take 41 created_a_txt) = 41
   \<and> (37 :: nat) < 41"
  using create_a_txt_37 by (simp add: created_a_txt_def)

section \<open>Locating the trailer\<close>

lemma find_eocd_from_scan:
  assumes "eocd_sig_at d t" and "search_end \<le> t" and "t \<le> i" and "i + 22 \<le> sz"
    and "\<forall>p. t < p \<and> p \<le> i \<longrightarrow> \<not> eocd_sig_at d p"
  shows "find_eocd_from d sz search_end i =
           (if unat (read_u32_le d (t + 16)) \<ge> sz then None
            else Some (read_u32_le d (t + 16), read_u16_le d (t + 8)))"
  using assms(3-5)
proof (induction "i - t" arbitrary: i)
  case 0
  then have "i = t" by simp
  with assms(1) \<open>i + 22 \<le> sz\<close> show ?case
    by (simp add: find_eocd_from.simps [of d sz search_end t] eocd_sig_at_def)
next
  case (Suc k)
  then have gt: "t < i" by simp
  with Suc.prems have nosig: "\<not> eocd_sig_at d i" by simp
  from gt assms(2) have "\<not> (i \<le> search_end \<or> i = 0)" by simp
  with nosig \<open>i + 22 \<le> sz\<close>
  have "find_eocd_from d sz search_end i = find_eocd_from d sz search_end (i - 1)"
    by (simp add: find_eocd_from.simps [of d sz search_end i] eocd_sig_at_def)
  moreover have "find_eocd_from d sz search_end (i - 1) =
           (if unat (read_u32_le d (t + 16)) \<ge> sz then None
            else Some (read_u32_le d (t + 16), read_u16_le d (t + 8)))"
    using Suc.hyps(2) Suc.prems gt by (intro Suc.hyps(1)) auto
  ultimately show ?case by simp
qed

text \<open>
  C5, as amended. If the trailer of the buffer is at \<open>t\<close> and the signature does not
  occur at any index after \<open>t\<close> at which the scan looks (up to 22 bytes before the
  end), then \<^verbatim>\<open>pas_zip_open\<close> succeeds and takes the central-directory offset and the
  entry count from the record at \<open>t\<close>, whatever the bytes before \<open>t\<close> are: no
  occurrence of the signature before the trailer is ever matched.
\<close>

theorem open_takes_true_trailer:
  assumes "true_trailer d t"
    and "\<forall>p. t < p \<and> p + 22 \<le> length d \<longrightarrow> \<not> eocd_sig_at d p"
  shows "pas_zip_open st (Some d) =
           (Some Zip_Handle, PAS_ZIP_OK,
            st\<lparr>pas_zip__handle :=
                 \<lparr>data = d, size_zip = length d, cd_offset = read_u32_le d (t + 16),
                  num_entries = read_u16_le d (t + 8)\<rparr>\<rparr>)"
proof -
  let ?c = "unat (read_u16_le d (t + 20))"
  from assms(1) have sig: "eocd_sig_at d t" and len: "t + 22 + ?c = length d"
    and cd: "unat (read_u32_le d (t + 16)) < length d"
    by (simp_all add: true_trailer_def)
  have "?c < 65536" using unsigned_less [of "read_u16_le d (t + 20)", where ?'a = nat] by simp
  with len have se: "(if length d > 65557 then length d - 65557 else 0) \<le> t"
    by (simp, arith)
  from len have i: "t \<le> length d - 22" "length d - 22 + 22 \<le> length d" by simp_all
  from len have "22 \<le> length d" by simp
  with assms(2) have "\<forall>p. t < p \<and> p \<le> length d - 22 \<longrightarrow> \<not> eocd_sig_at d p"
    by (auto simp: le_diff_conv2)
  from find_eocd_from_scan [OF sig se i this] cd len show ?thesis
    by (simp add: pas_zip_open_def find_eocd_def)
qed

text \<open>
  An instance: the archive with the comment \<^verbatim>\<open>hello\<close>, which has the signature at 31,
  before its trailer at 82.
\<close>

theorem open_takes_true_trailer_witness:
  "true_trailer zip_comment_hello 82
   \<and> eocd_sig_at zip_comment_hello 31
   \<and> pas_zip_open statics_init (Some zip_comment_hello) =
       (Some Zip_Handle, PAS_ZIP_OK,
        statics_init\<lparr>pas_zip__handle :=
          \<lparr>data = zip_comment_hello, size_zip = 109, cd_offset = 35, num_entries = 1\<rparr>\<rparr>)"
proof -
  have tt: "true_trailer zip_comment_hello 82"
    by (simp add: true_trailer_def eocd_sig_at_def read_u32_le_def read_u16_le_def
        zip_comment_hello_def PAS_ZIP_EOCD_SIG_def)
  have decoy: "eocd_sig_at zip_comment_hello 31"
    by (simp add: eocd_sig_at_def read_u32_le_def zip_comment_hello_def PAS_ZIP_EOCD_SIG_def)
  have after: "\<forall>p. 82 < p \<and> p + 22 \<le> length zip_comment_hello
                 \<longrightarrow> \<not> eocd_sig_at zip_comment_hello p"
  proof (intro allI impI)
    fix p :: nat
    assume "82 < p \<and> p + 22 \<le> length zip_comment_hello"
    then have "p = 83 \<or> p = 84 \<or> p = 85 \<or> p = 86 \<or> p = 87"
      by (simp add: zip_comment_hello_def) arith
    then show "\<not> eocd_sig_at zip_comment_hello p"
      by (elim disjE)
        (simp_all add: eocd_sig_at_def read_u32_le_def zip_comment_hello_def
          PAS_ZIP_EOCD_SIG_def)
  qed
  have "read_u32_le zip_comment_hello (82 + 16) = 35"
    and "read_u16_le zip_comment_hello (82 + 8) = 1"
    and "length zip_comment_hello = 109"
    by (simp_all add: read_u32_le_def read_u16_le_def zip_comment_hello_def)
  with open_takes_true_trailer [OF tt after, of statics_init] tt decoy
  show ?thesis by simp
qed

text \<open>
  C5 as stated fails where the signature also occurs after the start of the trailer.
  In \<open>zip_comment_decoy\<close> the trailer is at 82 and declares offset 35 and one entry,
  and the signature occurs before it, at 31. The scan starts at 126 - 22 = 104, the first
  byte of the comment, finds the signature there and takes offset 0 and zero entries from
  the comment bytes; the record it reads at 104 is not a trailer of the buffer (the
  comment length it would declare is 1).
\<close>

theorem open_takes_comment_decoy:
  "true_trailer zip_comment_decoy 82
   \<and> eocd_sig_at zip_comment_decoy 31
   \<and> read_u32_le zip_comment_decoy (82 + 16) = 35
   \<and> read_u16_le zip_comment_decoy (82 + 8) = 1
   \<and> \<not> true_trailer zip_comment_decoy 104
   \<and> pas_zip_open statics_init (Some zip_comment_decoy) =
       (Some Zip_Handle, PAS_ZIP_OK,
        statics_init\<lparr>pas_zip__handle :=
          \<lparr>data = zip_comment_decoy, size_zip = 126, cd_offset = 0, num_entries = 0\<rparr>\<rparr>)"
proof -
  have "true_trailer zip_comment_decoy 82" and "\<not> true_trailer zip_comment_decoy 104"
    and "eocd_sig_at zip_comment_decoy 31"
    by (simp_all add: true_trailer_def eocd_sig_at_def read_u32_le_def read_u16_le_def
        zip_comment_decoy_def PAS_ZIP_EOCD_SIG_def)
  moreover have "read_u32_le zip_comment_decoy (82 + 16) = 35"
    and "read_u16_le zip_comment_decoy (82 + 8) = 1"
    by (simp_all add: read_u32_le_def read_u16_le_def zip_comment_decoy_def)
  moreover have "pas_zip_open statics_init (Some zip_comment_decoy) =
       (Some Zip_Handle, PAS_ZIP_OK,
        statics_init\<lparr>pas_zip__handle :=
          \<lparr>data = zip_comment_decoy, size_zip = 126, cd_offset = 0, num_entries = 0\<rparr>\<rparr>)"
    by (simp add: pas_zip_open_def find_eocd_def find_eocd_from.simps read_u32_le_def
        read_u16_le_def zip_comment_decoy_def PAS_ZIP_EOCD_SIG_def)
  ultimately show ?thesis by simp
qed

section \<open>Looking an entry up\<close>

subsection \<open>What a successful lookup has read\<close>

lemma takeWhile_stops_at_zero:
  "takeWhile (\<lambda>b. b \<noteq> (0::byte)) (a @ 0 # xs) = takeWhile (\<lambda>b. b \<noteq> 0) a"
  by (induction a) simp_all

lemma c_str_terminated:
  assumes "length a = n"
  shows "c_str ((a @ b)[n := 0]) = c_str a"
proof (cases b)
  case Nil
  with assms have "(a @ b)[n := 0] = a" by (simp add: list_update_beyond)
  then show ?thesis by simp
next
  case (Cons x xs)
  then have "(a @ b)[length a := 0] = a @ 0 # xs" by simp
  with assms have "(a @ b)[n := 0] = a @ 0 # xs" by simp
  then show ?thesis by (simp add: c_str_def takeWhile_stops_at_zero)
qed

lemma parse_cd_entry_Some:
  assumes "parse_cd_entry d p (length d) nb0 = Some (e, nb)"
  shows "cd_record_at d p"
    and "e = cd_entry_at d p"
    and "c_str nb = c_str (take 511 (stored_name d p))"
proof -
  let ?fn = "unat (read_u16_le d (p + 28))"
  let ?n = "unat (if 512 \<le> ?fn then 511 else read_u16_le d (p + 28))"
  from assms show rec: "cd_record_at d p"
    by (auto simp: parse_cd_entry_def cd_record_at_def Let_def split: if_splits)
  from assms show "e = cd_entry_at d p"
    by (auto simp: parse_cd_entry_def cd_entry_at_def Let_def split: if_splits)
  from assms have nb: "nb = (take ?n (drop (p + 46) d) @ drop ?n nb0)[?n := 0]"
    by (auto simp: parse_cd_entry_def Let_def split: if_splits)
  have n: "?n = min 511 ?fn" by (simp add: min_def)
  from rec have "p + 46 + ?fn \<le> length d" by (simp add: cd_record_at_def)
  with n have "length (take ?n (drop (p + 46) d)) = ?n" by simp
  from c_str_terminated [OF this] nb
  have "c_str nb = c_str (take ?n (drop (p + 46) d))" by simp
  also have "take ?n (drop (p + 46) d) = take 511 (stored_name d p)"
    unfolding n stored_name_def by simp
  finally show "c_str nb = c_str (take 511 (stored_name d p))" .
qed

lemma parse_cd_entry_None:
  "parse_cd_entry d p (length d) nb = None \<longleftrightarrow> \<not> cd_record_at d p"
  by (auto simp: parse_cd_entry_def cd_record_at_def Let_def)

text \<open>
  A search that returns an entry has matched at an index of the walk, and the entry and
  the name buffer are what \<^verbatim>\<open>parse_cd_entry\<close> made of the record there.
\<close>

lemma cd_iterate_loop_found:
  assumes "cd_iterate_loop d (length d) find_name cb n p nb calls = (r, Some e, nb', calls')"
  shows "\<exists>p'\<in>set (cd_walk d n p). \<exists>q.
           find_name = Some q \<and> e = cd_entry_at d p'
           \<and> c_str nb' = c_str (take 511 (stored_name d p'))
           \<and> c_str nb' = c_str (deref_str nb' q)"
  using assms
proof (induction n arbitrary: p nb calls)
  case 0
  then show ?case by simp
next
  case (Suc n)
  let ?next = "p + 46 + unat (read_u16_le d (p + 28)) + unat (read_u16_le d (p + 30))
                 + unat (read_u16_le d (p + 32))"
  from Suc.prems have lt: "p < length d" by (auto split: if_splits)
  with Suc.prems obtain e1 nb1 where parse: "parse_cd_entry d p (length d) nb = Some (e1, nb1)"
    by (cases "parse_cd_entry d p (length d) nb") auto
  note at_p = parse_cd_entry_Some [OF parse]
  from at_p(1) have walk: "cd_walk d (Suc n) p = p # cd_walk d n ?next" by simp
  show ?case
  proof (cases "case find_name of None \<Rightarrow> False
                | Some q \<Rightarrow> c_str nb1 = c_str (deref_str nb1 q)")
    case True
    then obtain q where q: "find_name = Some q" "c_str nb1 = c_str (deref_str nb1 q)"
      by (cases find_name) auto
    from True Suc.prems lt parse have "e = e1" "nb' = nb1" by (simp_all add: Let_def)
    with at_p q walk show ?thesis by auto
  next
    case False
    with Suc.prems lt parse
    have "cd_iterate_loop d (length d) find_name cb n ?next nb1
            (if cb then calls @ [(c_str nb1, uncompressed_size e1)] else calls)
          = (r, Some e, nb', calls')"
      by (simp add: Let_def)
    from Suc.IH [OF this] walk show ?thesis by auto
  qed
qed

text \<open>
  A search or a listing that returns no entry has parsed every record of the walk: the
  name buffer is left as it was when the walk is empty, and else holds the name of the
  last record of the walk.
\<close>

lemma cd_iterate_loop_not_found:
  assumes "cd_iterate_loop d (length d) find_name cb n p nb calls = (r, None, nb', calls')"
  shows "(cd_walk d n p = [] \<longrightarrow> nb' = nb)
         \<and> (cd_walk d n p \<noteq> [] \<longrightarrow>
              c_str nb' = c_str (take 511 (stored_name d (last (cd_walk d n p)))))"
  using assms
proof (induction n arbitrary: p nb calls)
  case 0
  then show ?case by simp
next
  case (Suc n)
  let ?next = "p + 46 + unat (read_u16_le d (p + 28)) + unat (read_u16_le d (p + 30))
                 + unat (read_u16_le d (p + 32))"
  show ?case
  proof (cases "parse_cd_entry d p (length d) nb")
    case None
    then have "cd_walk d (Suc n) p = []" by (simp add: parse_cd_entry_None)
    moreover from None Suc.prems have "nb' = nb" by (simp split: if_splits)
    ultimately show ?thesis by simp
  next
    case (Some a)
    then obtain e1 nb1 where parse: "parse_cd_entry d p (length d) nb = Some (e1, nb1)"
      by (cases a) simp
    note at_p = parse_cd_entry_Some [OF parse]
    from at_p(1) have lt: "p < length d" by (simp add: cd_record_at_def)
    from at_p(1) have walk: "cd_walk d (Suc n) p = p # cd_walk d n ?next" by simp
    from Suc.prems lt parse
    have rest: "cd_iterate_loop d (length d) find_name cb n ?next nb1
            (if cb then calls @ [(c_str nb1, uncompressed_size e1)] else calls)
          = (r, None, nb', calls')"
      by (simp add: Let_def split: if_splits)
    from Suc.IH [OF rest] at_p(3) walk show ?thesis
      by (cases "cd_walk d n ?next = []") simp_all
  qed
qed

lemma cd_iterate_loop_list:
  "fst (snd (cd_iterate_loop d endp None cb n p nb calls)) = None"
  by (induction n arbitrary: p nb calls) (simp_all add: Let_def split: option.splits)

lemma pas_zip_open_handle:
  assumes "pas_zip_open st0 (Some d) = (Some zp, s, st)"
  shows "data (pas_zip__handle st) = d" and "size_zip (pas_zip__handle st) = length d"
    and "pas_zip__current_file st = pas_zip__current_file st0"
    and "pas_zip__name_buf st = pas_zip__name_buf st0"
    and "zp = Zip_Handle" and "s = PAS_ZIP_OK"
  using assms
  by (auto simp: pas_zip_open_def split: if_splits option.splits)

lemma pas_zip_find_Some:
  assumes "pas_zip_find st zp q' = (Some f, st')"
  shows "\<exists>q calls. q' = Some q
            \<and> cd_iterate (pas_zip__handle st) (Some q) False (pas_zip__name_buf st)
                = (True, Some (pas_zip__current_file st'), pas_zip__name_buf st', calls)"
    and "pas_zip__handle st' = pas_zip__handle st"
  using assms
  by (auto simp: pas_zip_find_def split: option.splits zip_ptr.splits prod.splits bool.splits)

lemma cd_walk_records: "p' \<in> set (cd_walk d n p) \<Longrightarrow> cd_record_at d p'"
  by (induction n arbitrary: p) (auto split: if_splits)

text \<open>
  What \<^verbatim>\<open>pas_zip_find\<close> leaves in the statics when it returns an entry, with the archive
  \<open>d\<close> open.
\<close>

lemma found_entry_on_walk:
  assumes "data (pas_zip__handle st) = d" and "size_zip (pas_zip__handle st) = length d"
    and "pas_zip_find st zp (Some q) = (Some f, st')"
  shows "\<exists>p\<in>set (cd_walk_of (pas_zip__handle st)).
           cd_record_at d p
           \<and> pas_zip__current_file st' = cd_entry_at d p
           \<and> c_str (pas_zip__name_buf st') = c_str (take 511 (stored_name d p))
           \<and> c_str (pas_zip__name_buf st') = c_str (deref_str (pas_zip__name_buf st') q)"
proof -
  from pas_zip_find_Some(1) [OF assms(3)] assms(1,2)
  obtain calls where
    "cd_iterate_loop d (length d) (Some q) False (unat (num_entries (pas_zip__handle st)))
       (unat (cd_offset (pas_zip__handle st))) (pas_zip__name_buf st) []
     = (True, Some (pas_zip__current_file st'), pas_zip__name_buf st', calls)"
    by (auto simp: cd_iterate_def)
  from cd_iterate_loop_found [OF this] assms(1) show ?thesis
    by (auto simp: cd_walk_of_def dest: cd_walk_records)
qed

subsection \<open>The examples\<close>




lemma open_sizes_differ:
  "pas_zip_open statics_init (Some zip_sizes_differ)
     = (Some Zip_Handle, PAS_ZIP_OK, st_differ_opened)"
  by (simp add: pas_zip_open_def find_eocd_def find_eocd_from.simps read_u32_le_def
      read_u16_le_def zip_sizes_differ_def st_differ_opened_def PAS_ZIP_EOCD_SIG_def)

lemma find_sizes_differ:
  "pas_zip_find st_differ_opened (Some Zip_Handle) (Some (Caller_String [0x61]))
     = (Some Current_File, st_differ_found)"
  by code_simp



subsection \<open>Name comparison\<close>




subsection \<open>The sizes of a found entry\<close>

text \<open>
  C7, as amended. The method, compressed size and uncompressed size of an entry returned
  by \<^verbatim>\<open>pas_zip_find\<close> are the fields at 10, 20 and 24 of a central-directory record of
  the archive, as stored. So a Store entry has equal sizes exactly when its record
  does; nothing in the parser compares them.
\<close>

theorem found_sizes_are_the_records:
  assumes "pas_zip_open st0 (Some d) = (Some zp, s, st)"
    and "pas_zip_find st (Some zp) (Some q) = (Some f, st')"
  shows "\<exists>p. cd_record_at d p
          \<and> compression_method (deref_file st' f) = read_u16_le d (p + 10)
          \<and> compressed_size (deref_file st' f) = unat (read_u32_le d (p + 20))
          \<and> uncompressed_size (deref_file st' f) = unat (read_u32_le d (p + 24))"
proof -
  from found_entry_on_walk [OF pas_zip_open_handle(1,2) [OF assms(1)] assms(2)]
  obtain p where "cd_record_at d p" and "pas_zip__current_file st' = cd_entry_at d p"
    by blast
  then show ?thesis
    by (auto simp: deref_file_def cd_entry_at_def split: file_ptr.splits)
qed

text \<open>An instance: the entry \<^verbatim>\<open>"b"\<close> of \<open>zip_two_files\<close>.\<close>

theorem found_sizes_are_the_records_witness:
  "pas_zip_open statics_init (Some zip_two_files) = (Some Zip_Handle, PAS_ZIP_OK, st_two_opened)
   \<and> pas_zip_find st_two_opened (Some Zip_Handle) (Some (Caller_String [0x62]))
       = (Some Current_File, st_two_found_b)
   \<and> (\<exists>p. cd_record_at zip_two_files p
          \<and> compression_method (deref_file st_two_found_b Current_File)
              = read_u16_le zip_two_files (p + 10)
          \<and> compressed_size (deref_file st_two_found_b Current_File)
              = unat (read_u32_le zip_two_files (p + 20))
          \<and> uncompressed_size (deref_file st_two_found_b Current_File)
              = unat (read_u32_le zip_two_files (p + 24)))"
  using found_sizes_are_the_records [OF open_two_files find_two_b] open_two_files find_two_b
  by simp

text \<open>
  C7 as stated fails on an archive whose record declares different sizes:
  \<^verbatim>\<open>pas_zip_find\<close> on \<open>zip_sizes_differ\<close> returns a Store entry with compressed size 5
  and uncompressed size 3.
\<close>

theorem found_store_entry_sizes_differ:
  "pas_zip_open statics_init (Some zip_sizes_differ)
     = (Some Zip_Handle, PAS_ZIP_OK, st_differ_opened)
   \<and> pas_zip_find st_differ_opened (Some Zip_Handle) (Some (Caller_String [0x61]))
       = (Some Current_File, st_differ_found)
   \<and> compression_method (deref_file st_differ_found Current_File) = PAS_ZIP_METHOD_STORE
   \<and> compressed_size (deref_file st_differ_found Current_File) = 5
   \<and> uncompressed_size (deref_file st_differ_found Current_File) = 3"
  using open_sizes_differ find_sizes_differ
  by (simp add: deref_file_def st_differ_found_def PAS_ZIP_METHOD_STORE_def)

section \<open>Extraction\<close>

text \<open>
  C2 (payload location). In the well-formed archive \<open>zip_two_files\<close> the entry
  \<^verbatim>\<open>"b"\<close> has its local header at 32, with a valid signature, a file-name length of 1
  and an extra length of 0, so its one byte of payload, \<^verbatim>\<open>Y\<close> (0x59), is at
  32 + 30 + 1 + 0 = 63. \<^verbatim>\<open>pas_zip_extract\<close> of that entry succeeds and delivers the
  byte at 30 + 1 + 0 = 31, which is \<^verbatim>\<open>X\<close> (0x58), the payload of \<^verbatim>\<open>"a"\<close>.
\<close>

theorem extract_ignores_local_header_offset:
  "pas_zip_open statics_init (Some zip_two_files) = (Some Zip_Handle, PAS_ZIP_OK, st_two_opened)
   \<and> pas_zip_find st_two_opened (Some Zip_Handle) (Some (Caller_String [0x62]))
       = (Some Current_File, st_two_found_b)
   \<and> compression_method (deref_file st_two_found_b Current_File) = PAS_ZIP_METHOD_STORE
   \<and> compressed_size (deref_file st_two_found_b Current_File) = 1
   \<and> local_header_offset (deref_file st_two_found_b Current_File) = 32
   \<and> read_u32_le zip_two_files 32 = PAS_ZIP_LFH_SIG
   \<and> read_u16_le zip_two_files (32 + 26) = 1
   \<and> read_u16_le zip_two_files (32 + 28) = 0
   \<and> take 1 (drop (32 + 30 + 1 + 0) zip_two_files) = [0x59]
   \<and> take 1 (drop (30 + 1 + 0) zip_two_files) = [0x58]
   \<and> pas_zip_extract st_two_found_b (Some Current_File) (Some [0])
       = Returns (1, PAS_ZIP_OK, Some [0x58])"
proof -
  have "compression_method (deref_file st_two_found_b Current_File) = PAS_ZIP_METHOD_STORE"
    and "compressed_size (deref_file st_two_found_b Current_File) = 1"
    and "local_header_offset (deref_file st_two_found_b Current_File) = 32"
    by (simp_all add: deref_file_def st_two_found_b_def PAS_ZIP_METHOD_STORE_def)
  moreover have "read_u32_le zip_two_files 32 = PAS_ZIP_LFH_SIG"
    and "read_u16_le zip_two_files (32 + 26) = 1"
    and "read_u16_le zip_two_files (32 + 28) = 0"
    by (simp_all add: read_u32_le_def read_u16_le_def zip_two_files_def PAS_ZIP_LFH_SIG_def)
  moreover have "take 1 (drop (32 + 30 + 1 + 0) zip_two_files) = [0x59]"
    and "take 1 (drop (30 + 1 + 0) zip_two_files) = [0x58]"
    by (simp_all add: zip_two_files_def)
  ultimately show ?thesis
    using open_two_files find_two_b extract_two_b by simp
qed

lemma unat_plus_le: "unat (a + b :: 32 word) \<le> unat a + unat b"
  by (simp add: unat_word_ariths)

text \<open>
  C8. Let the open archive be \<open>d\<close> and let the entry behind \<open>f\<close> be a structurally
  valid Store entry of it. Then \<^verbatim>\<open>pas_zip_extract\<close> into a destination of exactly
  \<^verbatim>\<open>uncompressed_size\<close> bytes returns that size with \<^verbatim>\<open>PAS_ZIP_OK\<close>, and the destination
  then holds the \<^verbatim>\<open>compressed_size\<close> bytes of the archive that start 30 + fn\_len +
  extra\_len bytes into it (the payload of the entry when its local header is at 0; C2 is
  about the others). Into any smaller destination it returns 0 with
  \<^verbatim>\<open>PAS_ZIP_E_NOSPACE\<close> and leaves the destination as it was.
\<close>

theorem extract_nospace_boundary:
  assumes "data (pas_zip__handle st) = d" and "size_zip (pas_zip__handle st) = length d"
    and "valid_store_entry d (deref_file st f)"
  shows "(length b = uncompressed_size (deref_file st f) \<longrightarrow>
            pas_zip_extract st (Some f) (Some b)
              = Returns
                  (uncompressed_size (deref_file st f), PAS_ZIP_OK,
                   Some (take (compressed_size (deref_file st f))
                          (drop (30
                                 + unat (read_u16_le d
                                     (unat (local_header_offset (deref_file st f)) + 26))
                                 + unat (read_u16_le d
                                     (unat (local_header_offset (deref_file st f)) + 28)))
                             d))))
         \<and> (length b < uncompressed_size (deref_file st f) \<longrightarrow>
              pas_zip_extract st (Some f) (Some b)
                = Returns (0, PAS_ZIP_E_NOSPACE, Some b))"
proof -
  let ?e = "deref_file st f"
  let ?off = "local_header_offset ?e"
  let ?po = "30 + unat (read_u16_le d (unat ?off + 26)) + unat (read_u16_le d (unat ?off + 28))"
  from assms(3) have store: "compression_method ?e = PAS_ZIP_METHOD_STORE"
    and eq: "compressed_size ?e = uncompressed_size ?e"
    and hdr: "unat ?off + 30 \<le> length d"
    and sig: "read_u32_le d (unat ?off) = PAS_ZIP_LFH_SIG"
    and pay: "unat ?off + ?po + compressed_size ?e \<le> length d"
    by (simp_all add: valid_store_entry_def)
  from unat_plus_le [of ?off 30] hdr have "\<not> unat (?off + 30) > length d" by simp
  with hdr sig have skip: "skip_local_header d (length d) ?off = Returns ?po"
    by (simp add: skip_local_header_def)
  from pay have inb: "\<not> ?po + compressed_size ?e > length d" by simp
  have small: "length b < uncompressed_size ?e \<Longrightarrow>
      extract_from d (length d) ?e b = Returns (0, PAS_ZIP_E_NOSPACE, b)"
    using skip inb by (simp add: extract_from_def)
  have fits: "length b = uncompressed_size ?e \<Longrightarrow>
      extract_from d (length d) ?e b
        = Returns (uncompressed_size ?e, PAS_ZIP_OK, take (compressed_size ?e) (drop ?po d))"
    using skip inb store eq by (simp add: extract_from_def)
  from small fits assms(1,2) show ?thesis
    by (simp add: pas_zip_extract_def)
qed

text \<open>
  An instance: the entry \<^verbatim>\<open>"a"\<close> of \<open>zip_two_files\<close>, of size 1 and with its local
  header at 0, into a destination of one byte, which then holds its payload \<^verbatim>\<open>X\<close>, and
  into an empty one.
\<close>

theorem extract_nospace_boundary_witness:
  "valid_store_entry zip_two_files (deref_file st_two_found_a Current_File)
   \<and> uncompressed_size (deref_file st_two_found_a Current_File) = 1
   \<and> local_header_offset (deref_file st_two_found_a Current_File) = 0
   \<and> take 1 (drop (0 + 30 + 1 + 0) zip_two_files) = [0x58]
   \<and> pas_zip_extract st_two_found_a (Some Current_File) (Some [0])
       = Returns (1, PAS_ZIP_OK, Some [0x58])
   \<and> pas_zip_extract st_two_found_a (Some Current_File) (Some [])
       = Returns (0, PAS_ZIP_E_NOSPACE, Some [])"
proof -
  have d: "data (pas_zip__handle st_two_found_a) = zip_two_files"
    and sz: "size_zip (pas_zip__handle st_two_found_a) = length zip_two_files"
    by (simp_all add: st_two_found_a_def st_two_opened_def zip_two_files_def)
  have v: "valid_store_entry zip_two_files (deref_file st_two_found_a Current_File)"
    by (simp add: valid_store_entry_def deref_file_def st_two_found_a_def
        PAS_ZIP_METHOD_STORE_def PAS_ZIP_LFH_SIG_def read_u32_le_def read_u16_le_def
        zip_two_files_def)
  have e: "uncompressed_size (deref_file st_two_found_a Current_File) = 1"
    "compressed_size (deref_file st_two_found_a Current_File) = 1"
    "local_header_offset (deref_file st_two_found_a Current_File) = 0"
    by (simp_all add: deref_file_def st_two_found_a_def)
  have bytes: "read_u16_le zip_two_files 26 = 1" "read_u16_le zip_two_files 28 = 0"
    "take 1 (drop 31 zip_two_files) = [0x58]"
    by (simp_all add: read_u16_le_def zip_two_files_def)
  from extract_nospace_boundary [OF d sz v, of "[0]"] extract_nospace_boundary [OF d sz v, of "[]"]
    v e bytes
  show ?thesis by simp
qed

section \<open>The statics behind the returned pointers\<close>

lemma list_two_after_a:
  "pas_zip_list st_two_found_a (Some Zip_Handle) True
     = (0, [([0x61], 1), ([0x62], 1)], st_two_listed)"
  by code_simp

lemma find_two_missing_after_a:
  "pas_zip_find st_two_found_a (Some Zip_Handle) (Some (Caller_String [0x7a]))
     = (None, st_two_listed)"
  by code_simp

lemma walk_two_files: "cd_walk_of (pas_zip__handle st_two_found_a) = [64, 111]"
  by code_simp

text \<open>
  C9 as stated fails. After \<^verbatim>\<open>pas_zip_find\<close> of \<^verbatim>\<open>"a"\<close> in \<open>zip_two_files\<close> the
  returned entry reads name \<^verbatim>\<open>"a"\<close> and local-header offset 0. A following
  \<^verbatim>\<open>pas_zip_find\<close> of \<^verbatim>\<open>"b"\<close> returns the same pointer, and the entry now reads name
  \<^verbatim>\<open>"b"\<close> and offset 32. A following \<^verbatim>\<open>pas_zip_list\<close> instead leaves the offset and
  makes the name read \<^verbatim>\<open>"b"\<close>, the last name it parsed.
\<close>

theorem later_calls_change_found_entry:
  "pas_zip_find st_two_opened (Some Zip_Handle) (Some (Caller_String [0x61]))
     = (Some Current_File, st_two_found_a)
   \<and> pas_zip_name st_two_found_a (Some Current_File) = Some [0x61]
   \<and> local_header_offset (deref_file st_two_found_a Current_File) = 0
   \<and> pas_zip_find st_two_found_a (Some Zip_Handle) (Some (Caller_String [0x62]))
       = (Some Current_File, st_two_found_b)
   \<and> pas_zip_name st_two_found_b (Some Current_File) = Some [0x62]
   \<and> local_header_offset (deref_file st_two_found_b Current_File) = 32
   \<and> pas_zip_list st_two_found_a (Some Zip_Handle) True
       = (0, [([0x61], 1), ([0x62], 1)], st_two_listed)
   \<and> pas_zip_name st_two_listed (Some Current_File) = Some [0x62]"
proof -
  have "pas_zip_name st_two_found_a (Some Current_File) = Some [0x61]"
    and "pas_zip_name st_two_found_b (Some Current_File) = Some [0x62]"
    and "pas_zip_name st_two_listed (Some Current_File) = Some [0x62]"
    by (simp_all add: pas_zip_name_def deref_file_def c_str_def st_two_found_a_def
        st_two_found_b_def st_two_listed_def)
  moreover have "local_header_offset (deref_file st_two_found_a Current_File) = 0"
    and "local_header_offset (deref_file st_two_found_b Current_File) = 32"
    by (simp_all add: deref_file_def st_two_found_a_def st_two_found_b_def)
  ultimately show ?thesis
    using find_two_a find_two_b_after_a list_two_after_a by simp
qed

lemma pas_zip_find_None:
  assumes "pas_zip_find st zp q = (None, st')"
  shows "pas_zip__current_file st' = pas_zip__current_file st"
  using assms
  by (auto simp: pas_zip_find_def
      split: option.splits zip_ptr.splits prod.splits bool.splits)

lemma pas_zip_list_current_file:
  assumes "pas_zip_list st zp cb = (r, calls, st')"
  shows "pas_zip__current_file st' = pas_zip__current_file st"
  using assms
  by (auto simp: pas_zip_list_def
      split: option.splits zip_ptr.splits prod.splits if_splits)

lemma pas_zip_list_name_buf:
  assumes "data (pas_zip__handle st) = d" and "size_zip (pas_zip__handle st) = length d"
    and "pas_zip_list st (Some zp) True = (r, calls, st')"
    and "cd_walk_of (pas_zip__handle st) \<noteq> []"
  shows "c_str (pas_zip__name_buf st')
           = c_str (take 511 (stored_name d (last (cd_walk_of (pas_zip__handle st)))))"
proof -
  obtain r' out nb' calls' where
    it: "cd_iterate (pas_zip__handle st) None True (pas_zip__name_buf st)
           = (r', out, nb', calls')"
    by (cases "cd_iterate (pas_zip__handle st) None True (pas_zip__name_buf st)") auto
  with cd_iterate_loop_list
         [of "data (pas_zip__handle st)" "size_zip (pas_zip__handle st)" True
            "unat (num_entries (pas_zip__handle st))" "unat (cd_offset (pas_zip__handle st))"
            "pas_zip__name_buf st" "[]"]
  have "out = None" by (simp add: cd_iterate_def)
  with it assms(1,2)
  have "cd_iterate_loop d (length d) None True (unat (num_entries (pas_zip__handle st)))
          (unat (cd_offset (pas_zip__handle st))) (pas_zip__name_buf st) []
        = (r', None, nb', calls')"
    by (simp add: cd_iterate_def)
  from cd_iterate_loop_not_found [OF this] assms(1,4)
  have "c_str nb' = c_str (take 511 (stored_name d (last (cd_walk_of (pas_zip__handle st)))))"
    by (simp add: cd_walk_of_def)
  moreover from it assms(3) have "pas_zip__name_buf st' = nb'"
    by (auto simp: pas_zip_list_def split: zip_ptr.splits)
  ultimately show ?thesis by simp
qed

lemma pas_zip_find_Some_name_ptr:
  assumes "pas_zip_find st zp q = (Some f, st')"
  shows "name (pas_zip__current_file st') = Name_Buf"
proof -
  from pas_zip_find_Some(1) [OF assms] obtain q' calls where
    it: "cd_iterate (pas_zip__handle st) (Some q') False (pas_zip__name_buf st)
          = (True, Some (pas_zip__current_file st'), pas_zip__name_buf st', calls)"
    by blast
  have "cd_iterate_loop d endp fn cb n p nb cs = (r, Some e, nb', cs') \<Longrightarrow> name e = Name_Buf"
    for d endp fn cb n p nb cs r e nb' cs'
  proof (induction n arbitrary: p nb cs)
    case 0
    then show ?case by simp
  next
    case (Suc n)
    then show ?case
      by (auto simp: Let_def parse_cd_entry_def split: if_splits option.splits)
  qed
  from this [OF it [unfolded cd_iterate_def]] show ?thesis .
qed

text \<open>
  C9, as amended. What a caller reads through an entry that \<^verbatim>\<open>pas_zip_find\<close> returned
  is the one static record and, for the name, the static name buffer; neither is owned
  by the entry. With an archive open and an entry \<open>f\<close> returned earlier: after a later
  \<^verbatim>\<open>pas_zip_find\<close> that succeeds, \<open>f\<close> reads as the record that call matched, a record
  of the walk of the central directory: its fields are that record's and its name is
  that record's stored name (cut to 511 bytes, as a C string). A later
  \<^verbatim>\<open>pas_zip_find\<close> that returns NULL and every \<^verbatim>\<open>pas_zip_list\<close> leave the fields of
  \<open>f\<close> as they were; a \<^verbatim>\<open>pas_zip_list\<close> that parses at least one record leaves as the
  name of \<open>f\<close> the name of the last record it parsed.
\<close>

theorem found_entry_is_the_static:
  assumes "data (pas_zip__handle st) = d" and "size_zip (pas_zip__handle st) = length d"
    and "pas_zip_find st0 zp0 q0 = (Some f, st)"
  shows "(pas_zip_find st zp (Some q) = (Some f', st') \<longrightarrow>
            (\<exists>p\<in>set (cd_walk_of (pas_zip__handle st)).
               deref_file st' f = cd_entry_at d p
               \<and> pas_zip_name st' (Some f) = Some (c_str (take 511 (stored_name d p)))))
         \<and> (pas_zip_find st zp q' = (None, st2) \<longrightarrow>
              deref_file st2 f = deref_file st f)
         \<and> (pas_zip_list st zp cb = (r, calls, st3) \<longrightarrow>
              deref_file st3 f = deref_file st f)
         \<and> (pas_zip_list st (Some zp') True = (r, calls, st3)
              \<and> cd_walk_of (pas_zip__handle st) \<noteq> [] \<longrightarrow>
              pas_zip_name st3 (Some f)
                = Some (c_str (take 511
                     (stored_name d (last (cd_walk_of (pas_zip__handle st)))))))"
proof -
  have nm: "name (pas_zip__current_file st) = Name_Buf"
    by (rule pas_zip_find_Some_name_ptr [OF assms(3)])
  have a: "\<exists>p\<in>set (cd_walk_of (pas_zip__handle st)).
               deref_file st' f = cd_entry_at d p
               \<and> pas_zip_name st' (Some f) = Some (c_str (take 511 (stored_name d p)))"
    if "pas_zip_find st zp (Some q) = (Some f', st')"
  proof -
    from found_entry_on_walk [OF assms(1,2) that] obtain p where
      p: "p \<in> set (cd_walk_of (pas_zip__handle st))"
      and e: "pas_zip__current_file st' = cd_entry_at d p"
      and n: "c_str (pas_zip__name_buf st') = c_str (take 511 (stored_name d p))"
      by blast
    from e have "name (pas_zip__current_file st') = Name_Buf" by (simp add: cd_entry_at_def)
    with e n have "deref_file st' f = cd_entry_at d p"
      and "pas_zip_name st' (Some f) = Some (c_str (take 511 (stored_name d p)))"
      by (simp_all add: pas_zip_name_def deref_file_def split: file_ptr.splits)
    with p show ?thesis by blast
  qed
  have b: "deref_file st2 f = deref_file st f" if "pas_zip_find st zp q' = (None, st2)"
    using pas_zip_find_None [OF that] by (simp add: deref_file_def split: file_ptr.splits)
  have c: "deref_file st3 f = deref_file st f" if "pas_zip_list st zp cb = (r, calls, st3)"
    using pas_zip_list_current_file [OF that]
    by (simp add: deref_file_def split: file_ptr.splits)
  have d: "pas_zip_name st3 (Some f)
             = Some (c_str (take 511 (stored_name d (last (cd_walk_of (pas_zip__handle st))))))"
    if "pas_zip_list st (Some zp') True = (r, calls, st3)"
      and "cd_walk_of (pas_zip__handle st) \<noteq> []"
    using pas_zip_list_name_buf [OF assms(1,2) that] pas_zip_list_current_file [OF that(1)] nm
    by (simp add: pas_zip_name_def deref_file_def split: file_ptr.splits)
  from a b c d show ?thesis by blast
qed

text \<open>
  An instance: \<open>zip_two_files\<close> open and \<^verbatim>\<open>"a"\<close> found; then a find of \<^verbatim>\<open>"b"\<close>, after
  which the entry reads as the record at 111; a find of the absent \<^verbatim>\<open>"z"\<close>; and a
  listing, after which the name of the entry is that of the record at 111, \<^verbatim>\<open>"b"\<close>.
\<close>

theorem found_entry_is_the_static_witness:
  "pas_zip_find st_two_opened (Some Zip_Handle) (Some (Caller_String [0x61]))
     = (Some Current_File, st_two_found_a)
   \<and> pas_zip_find st_two_found_a (Some Zip_Handle) (Some (Caller_String [0x62]))
       = (Some Current_File, st_two_found_b)
   \<and> (\<exists>p\<in>set (cd_walk_of (pas_zip__handle st_two_found_a)).
         deref_file st_two_found_b Current_File = cd_entry_at zip_two_files p
         \<and> pas_zip_name st_two_found_b (Some Current_File)
             = Some (c_str (take 511 (stored_name zip_two_files p))))
   \<and> pas_zip_find st_two_found_a (Some Zip_Handle) (Some (Caller_String [0x7a]))
       = (None, st_two_listed)
   \<and> deref_file st_two_listed Current_File = deref_file st_two_found_a Current_File
   \<and> pas_zip_list st_two_found_a (Some Zip_Handle) True
       = (0, [([0x61], 1), ([0x62], 1)], st_two_listed)
   \<and> cd_walk_of (pas_zip__handle st_two_found_a) = [64, 111]
   \<and> pas_zip_name st_two_listed (Some Current_File)
       = Some (c_str (take 511 (stored_name zip_two_files 111)))
   \<and> c_str (take 511 (stored_name zip_two_files 111)) = [0x62]"
proof -
  have d: "data (pas_zip__handle st_two_found_a) = zip_two_files"
    and sz: "size_zip (pas_zip__handle st_two_found_a) = length zip_two_files"
    by (simp_all add: st_two_found_a_def st_two_opened_def zip_two_files_def)
  have nm: "c_str (take 511 (stored_name zip_two_files 111)) = [0x62]"
    by (simp add: stored_name_def read_u16_le_def zip_two_files_def c_str_def)
  from found_entry_is_the_static [OF d sz find_two_a, of "Some Zip_Handle" "Caller_String [0x62]"
      Current_File st_two_found_b "Some (Caller_String [0x7a])" st_two_listed True 0
      "[([0x61], 1), ([0x62], 1)]" st_two_listed Zip_Handle]
    find_two_a find_two_b_after_a find_two_missing_after_a list_two_after_a walk_two_files nm
  show ?thesis by simp
qed




end
